theory Spec2Isabelle
  imports Complex_Main "HOL-Library.Word" "HOL-Library.Sublist"
begin

section \<open>The telemetry pipeline of \<open>src/main.cpp\<close>\<close>

text \<open>
  The program is one WebSocket message handler (\<open>h.onMessage\<close>) with three helper
  functions, \<open>hasData\<close>, \<open>polyeval\<close> and \<open>polyfit\<close>. The embedding follows the source
  line by line.

  \<^item> C++ \<open>double\<close> is modelled by \<open>real\<close>: arithmetic is exact, and rounding, infinities
    and NaN are outside the model.
  \<^item> \<open>size_t\<close> is \<open>64 word\<close> where the source subtracts positions (\<open>hasData\<close>).
  \<^item> Every way the handler can stop other than by returning is a value of \<open>failure\<close>.
  \<^item> The libraries the handler calls (the JSON parser and serializer, Eigen's QR solver,
    the MPC optimizer) are not part of \<open>main.cpp\<close>; they are the fields of the record
    \<open>ext\<close>, and every theorem holds for all of them.
  \<^item> What the handler does to the outside (parsing, fitting, solving, sleeping, sending) is
    recorded in order as a list of \<open>event\<close>s. Console output is not recorded.
\<close>

subsection \<open>\<open>std::string\<close> operations\<close>

text \<open>\<open>s.find(pat)\<close>: the first position at which \<open>pat\<close> occurs, \<open>None\<close> for \<open>npos\<close>.\<close>

primrec find :: "string \<Rightarrow> string \<Rightarrow> nat option" where
  "find pat [] = (if pat = [] then Some 0 else None)"
| "find pat (c # cs) =
     (if prefix pat (c # cs) then Some 0 else map_option Suc (find pat cs))"

text \<open>\<open>s.find_first_of(chars)\<close>: the first position holding one of \<open>chars\<close>.\<close>

primrec find_first_of :: "string \<Rightarrow> string \<Rightarrow> nat option" where
  "find_first_of chars [] = None"
| "find_first_of chars (c # cs) =
     (if c \<in> set chars then Some 0 else map_option Suc (find_first_of chars cs))"

text \<open>\<open>s.rfind(pat)\<close>: the last position at which \<open>pat\<close> occurs.\<close>

primrec rfind :: "string \<Rightarrow> string \<Rightarrow> nat option" where
  "rfind pat [] = (if pat = [] then Some 0 else None)"
| "rfind pat (c # cs) =
     (case rfind pat cs of
        Some i \<Rightarrow> Some (Suc i)
      | None \<Rightarrow> if prefix pat (c # cs) then Some 0 else None)"

text \<open>
  \<open>s.substr(pos, count)\<close> for \<open>pos \<le> s.size()\<close>: at most \<open>count\<close> characters from
  \<open>pos\<close> on. The count is a \<open>size_t\<close>. (For \<open>pos > s.size()\<close> the C++ function throws;
  \<open>hasData\<close> only passes a position that \<open>find_first_of\<close> returned.)
\<close>

definition substr :: "string \<Rightarrow> nat \<Rightarrow> 64 word \<Rightarrow> string" where
  "substr s pos count = take (unat count) (drop pos s)"

subsection \<open>\<open>hasData\<close> (lines 23-33)\<close>

definition hasData :: "string \<Rightarrow> string" where
  "hasData s =
     (let found_null = find ''null'' s;
          b1 = find_first_of ''['' s;
          b2 = rfind ''}]'' s
      in if found_null \<noteq> None then ''''
         else (case (b1, b2) of
                 (Some p1, Some p2) \<Rightarrow> substr s p1 (word_of_nat p2 - word_of_nat p1 + 2)
               | _ \<Rightarrow> ''''))"

subsection \<open>Failures, events and the external libraries\<close>

text \<open>
  How a run of the handler can end without returning to the event loop:
  \<^item> \<open>Assertion_abort\<close>: an \<open>assert\<close> fails and calls \<open>abort()\<close>, which ends the process;
  \<^item> \<open>Json_parse_error\<close>, \<open>Json_type_error\<close>: the JSON library throws; the handler has no
    \<open>try\<close> block, so the exception leaves the handler;
  \<^item> \<open>Out_of_bounds_read\<close>: an unchecked read past the end of a \<open>std::vector\<close>
    (undefined behaviour in C++).
\<close>

datatype failure = Assertion_abort | Json_parse_error | Json_type_error | Out_of_bounds_read

datatype outcome = Returned | Failed failure

datatype json =
    JNull
  | JBool bool
  | JNum real
  | JStr string
  | JArr "json list"
  | JObj "(string \<times> json) list"

text \<open>The object \<open>msgJson\<close> built in lines 145-177, one field per key.\<close>

record msg_json =
  steering_angle :: real
  throttle :: real
  mpc_x :: "real list"
  mpc_y :: "real list"
  next_x :: "real list"
  next_y :: "real list"

text \<open>
  The libraries: \<open>json::parse\<close> (\<open>None\<close> when it throws), \<open>A.householderQr().solve(y)\<close>
  on the matrix given by its rows, \<open>mpc.Solve(state, coeffs)\<close>, and \<open>msgJson.dump()\<close>.
\<close>

record ext =
  json_parse :: "string \<Rightarrow> json option"
  householderQr_solve :: "real list list \<Rightarrow> real list \<Rightarrow> real list"
  mpc_Solve :: "real list \<Rightarrow> real list \<Rightarrow> real list"
  json_dump :: "msg_json \<Rightarrow> string"

datatype event =
    Parse string
  | Fit "real list" "real list" int
  | Solve "real list" "real list"
  | Sleep nat
  | Send string

subsection \<open>Reading JSON values\<close>

text \<open>
  \<open>json.hpp\<close> is not among the sources, so the accessors the handler uses are modelled
  from the spec: the envelope is an array \<open>[eventName, payload]\<close>, the telemetry fields
  are all required and numeric, \<open>ptsx\<close> and \<open>ptsy\<close> are sequences of numbers, and an
  envelope with a missing or ill-typed part fails. The failure is the library's exception.
\<close>

text \<open>Modelled from the spec: \<open>j[i]\<close> of \<open>json.hpp\<close>, element \<open>i\<close> of the envelope array.\<close>

definition json_at :: "json \<Rightarrow> nat \<Rightarrow> failure + json" where
  "json_at j i =
     (case j of
        JArr xs \<Rightarrow> if i < length xs then Inr (xs ! i) else Inl Json_type_error
      | _ \<Rightarrow> Inl Json_type_error)"

text \<open>Modelled from the spec: \<open>j[key]\<close> of \<open>json.hpp\<close>, a required field of the payload.\<close>

definition json_field :: "json \<Rightarrow> string \<Rightarrow> failure + json" where
  "json_field j k =
     (case j of
        JObj kvs \<Rightarrow> (case map_of kvs k of Some v \<Rightarrow> Inr v | None \<Rightarrow> Inl Json_type_error)
      | _ \<Rightarrow> Inl Json_type_error)"

text \<open>Modelled from the spec: \<open>get<string>()\<close> of \<open>json.hpp\<close>, the event name.\<close>

definition get_string :: "json \<Rightarrow> failure + string" where
  "get_string j = (case j of JStr s \<Rightarrow> Inr s | _ \<Rightarrow> Inl Json_type_error)"

text \<open>Modelled from the spec: the conversion of \<open>json.hpp\<close> to \<open>double\<close>, a numeric field.\<close>

definition get_double :: "json \<Rightarrow> failure + real" where
  "get_double j = (case j of JNum r \<Rightarrow> Inr r | _ \<Rightarrow> Inl Json_type_error)"

text \<open>
  Modelled from the spec: the conversion of \<open>json.hpp\<close> to \<open>vector<double>\<close>, a sequence
  of numbers.
\<close>

fun get_doubles :: "json list \<Rightarrow> failure + real list" where
  "get_doubles [] = Inr []"
| "get_doubles (j # js) =
     (case get_double j of
        Inl e \<Rightarrow> Inl e
      | Inr r \<Rightarrow> (case get_doubles js of Inl e \<Rightarrow> Inl e | Inr rs \<Rightarrow> Inr (r # rs)))"

definition get_vector :: "json \<Rightarrow> failure + real list" where
  "get_vector j = (case j of JArr xs \<Rightarrow> get_doubles xs | _ \<Rightarrow> Inl Json_type_error)"

text \<open>\<open>double x = j1[key]\<close> and \<open>vector<double> xs = j1[key]\<close>, as in lines 90-101.\<close>

definition double_field :: "json \<Rightarrow> string \<Rightarrow> failure + real" where
  "double_field j k = (case json_field j k of Inl e \<Rightarrow> Inl e | Inr x \<Rightarrow> get_double x)"

definition vector_field :: "json \<Rightarrow> string \<Rightarrow> failure + real list" where
  "vector_field j k = (case json_field j k of Inl e \<Rightarrow> Inl e | Inr x \<Rightarrow> get_vector x)"

subsection \<open>Unchecked and asserted indexing\<close>

text \<open>\<open>v[i]\<close> on a \<open>std::vector<double>\<close>: no bounds check.\<close>

definition vector_at :: "real list \<Rightarrow> nat \<Rightarrow> failure + real" where
  "vector_at v i = (if i < length v then Inr (v ! i) else Inl Out_of_bounds_read)"

text \<open>\<open>v[i]\<close> on an \<open>Eigen::VectorXd\<close>: the index is asserted.\<close>

definition eigen_at :: "real list \<Rightarrow> nat \<Rightarrow> failure + real" where
  "eigen_at v i = (if i < length v then Inr (v ! i) else Inl Assertion_abort)"

subsection \<open>\<open>polyeval\<close> (lines 36-42)\<close>

function polyeval_loop :: "real list \<Rightarrow> real \<Rightarrow> nat \<Rightarrow> real \<Rightarrow> real" where
  "polyeval_loop coeffs x i result =
     (if i < length coeffs
      then polyeval_loop coeffs x (i + 1) (result + coeffs ! i * x ^ i)
      else result)"
  by pat_completeness auto
termination
  by (relation "measure (\<lambda>(coeffs, x, i, result). length coeffs - i)") auto

declare polyeval_loop.simps [simp del]

definition polyeval :: "real list \<Rightarrow> real \<Rightarrow> real" where
  "polyeval coeffs x = polyeval_loop coeffs x 0 0"

subsection \<open>\<open>polyfit\<close> (lines 47-65)\<close>

text \<open>
  Row \<open>j\<close> of the matrix \<open>A\<close>: \<open>A(j, 0) = 1\<close> and \<open>A(j, i + 1) = A(j, i) * xvals(j)\<close> for
  \<open>i < order\<close>. \<open>row_from x a n\<close> is the row from an entry \<open>a\<close> on, with \<open>n\<close> more to come.
\<close>

fun row_from :: "real \<Rightarrow> real \<Rightarrow> nat \<Rightarrow> real list" where
  "row_from x a 0 = [a]"
| "row_from x a (Suc n) = a # row_from x (a * x) n"

definition design_matrix :: "real list \<Rightarrow> nat \<Rightarrow> real list list" where
  "design_matrix xvals order = map (\<lambda>x. row_from x 1 order) xvals"

text \<open>
  The two \<open>assert\<close>s come first. Eigen's \<open>size()\<close> is signed, so \<open>xvals.size() - 1\<close> is
  \<open>-1\<close> for an empty vector.
\<close>

definition polyfit :: "ext \<Rightarrow> real list \<Rightarrow> real list \<Rightarrow> int \<Rightarrow> failure + real list" where
  "polyfit E xvals yvals order =
     (if length xvals \<noteq> length yvals then Inl Assertion_abort
      else if \<not> (order \<ge> 1 \<and> order \<le> int (length xvals) - 1) then Inl Assertion_abort
      else Inr (householderQr_solve E (design_matrix xvals (nat order)) yvals))"

subsection \<open>The telemetry fields (lines 90-101)\<close>

record telemetry =
  tm_x :: real
  tm_y :: real
  tm_psi :: real
  tm_speed :: real
  tm_steering_angle :: real
  tm_throttle :: real
  tm_ptsx :: "real list"
  tm_ptsy :: "real list"

text \<open>
  The fields of \<open>j[1]\<close> are read in the order of the source. \<open>ptsize\<close>, the \<open>size()\<close> of
  the \<open>ptsx\<close> array, is the length of the vector read from it.
\<close>

definition read_telemetry :: "json \<Rightarrow> failure + telemetry" where
  "read_telemetry j1 =
     (case double_field j1 ''x'' of Inl e \<Rightarrow> Inl e | Inr px \<Rightarrow>
      case double_field j1 ''y'' of Inl e \<Rightarrow> Inl e | Inr py \<Rightarrow>
      case double_field j1 ''psi'' of Inl e \<Rightarrow> Inl e | Inr psi \<Rightarrow>
      case double_field j1 ''speed'' of Inl e \<Rightarrow> Inl e | Inr v \<Rightarrow>
      case double_field j1 ''steering_angle'' of Inl e \<Rightarrow> Inl e | Inr delta \<Rightarrow>
      case double_field j1 ''throttle'' of Inl e \<Rightarrow> Inl e | Inr a \<Rightarrow>
      case vector_field j1 ''ptsx'' of Inl e \<Rightarrow> Inl e | Inr ptsx \<Rightarrow>
      case vector_field j1 ''ptsy'' of Inl e \<Rightarrow> Inl e | Inr ptsy \<Rightarrow>
        Inr \<lparr>tm_x = px, tm_y = py, tm_psi = psi, tm_speed = v, tm_steering_angle = delta,
             tm_throttle = a, tm_ptsx = ptsx, tm_ptsy = ptsy\<rparr>)"

subsection \<open>World frame to car frame (lines 103-116)\<close>

text \<open>The body of the loop for one waypoint \<open>(ptsx[i], ptsy[i])\<close>.\<close>

definition transformToVehicle :: "real \<Rightarrow> real \<Rightarrow> real \<Rightarrow> real \<times> real \<Rightarrow> real \<times> real" where
  "transformToVehicle px py psi p =
     (let x = fst p - px;
          y = snd p - py
      in (x * cos (- psi) - y * sin (- psi), x * sin (- psi) + y * cos (- psi)))"

text \<open>
  The loop runs \<open>i\<close> over the positions of \<open>ptsx\<close> and reads \<open>ptsy[i]\<close> unchecked. It
  writes into the two vectors of size \<open>ptsize\<close> allocated in lines 103-104, which are
  passed in as \<open>car\<close>.
\<close>

function car_frame_loop ::
  "real \<Rightarrow> real \<Rightarrow> real \<Rightarrow> real list \<Rightarrow> real list \<Rightarrow> nat \<Rightarrow> real list \<times> real list
     \<Rightarrow> failure + (real list \<times> real list)" where
  "car_frame_loop px py psi ptsx ptsy i car =
     (if i < length ptsx
      then (if i < length ptsy
            then (let q = transformToVehicle px py psi (ptsx ! i, ptsy ! i)
                  in car_frame_loop px py psi ptsx ptsy (i + 1)
                       ((fst car)[i := fst q], (snd car)[i := snd q]))
            else Inl Out_of_bounds_read)
      else Inr car)"
  by pat_completeness auto
termination
  by (relation "measure (\<lambda>(px, py, psi, ptsx, ptsy, i, car). length ptsx - i)") auto

declare car_frame_loop.simps [simp del]

definition to_car_frame :: "telemetry \<Rightarrow> failure + (real list \<times> real list)" where
  "to_car_frame t =
     (let ptsize = length (tm_ptsx t)
      in car_frame_loop (tm_x t) (tm_y t) (tm_psi t) (tm_ptsx t) (tm_ptsy t) 0
           (replicate ptsize 0, replicate ptsize 0))"

subsection \<open>State vector (lines 127-137)\<close>

definition vehicle_state :: "real \<Rightarrow> real list \<Rightarrow> failure + real list" where
  "vehicle_state v coeffs =
     (let cte = polyeval coeffs 0
      in case eigen_at coeffs 1 of
           Inl e \<Rightarrow> Inl e
         | Inr c1 \<Rightarrow> (let epsi = - arctan c1 in Inr [0, 0, 0, v, cte, epsi]))"

subsection \<open>The reply (lines 142-179)\<close>

text \<open>Lines 157-162: the reference line.\<close>

function next_vals_loop ::
  "real list \<Rightarrow> real \<Rightarrow> nat \<Rightarrow> nat \<Rightarrow> real list \<times> real list \<Rightarrow> real list \<times> real list" where
  "next_vals_loop coeffs d num i vals =
     (if i < num
      then next_vals_loop coeffs d num (i + 1)
             (fst vals @ [d * real i], snd vals @ [polyeval coeffs (d * real i)])
      else vals)"
  by pat_completeness auto
termination
  by (relation "measure (\<lambda>(coeffs, d, num, i, vals). num - i)") auto

declare next_vals_loop.simps [simp del]

text \<open>Lines 164-171: the predicted trajectory.\<close>

function mpc_vals_loop ::
  "real list \<Rightarrow> nat \<Rightarrow> real list \<times> real list \<Rightarrow> real list \<times> real list" where
  "mpc_vals_loop result i vals =
     (if i < length result
      then mpc_vals_loop result (i + 1)
             (if i mod 2 = 0 then (fst vals @ [result ! i], snd vals)
              else (fst vals, snd vals @ [result ! i]))
      else vals)"
  by pat_completeness auto
termination
  by (relation "measure (\<lambda>(result, i, vals). length result - i)") auto

declare mpc_vals_loop.simps [simp del]

text \<open>
  \<open>result\<close> is what \<open>mpc.Solve\<close> returned, a \<open>std::vector<double>\<close>; \<open>result[0]\<close> and
  \<open>result[1]\<close> are read first, unchecked.
\<close>

definition steer_message :: "real list \<Rightarrow> real list \<Rightarrow> failure + msg_json" where
  "steer_message result coeffs =
     (case vector_at result 0 of Inl e \<Rightarrow> Inl e | Inr steer_value \<Rightarrow>
      case vector_at result 1 of Inl e \<Rightarrow> Inl e | Inr throttle_value \<Rightarrow>
        (let next_vals = next_vals_loop coeffs 2.5 25 0 ([], []);
             mpc_vals = mpc_vals_loop result 2 ([], [])
         in Inr \<lparr>steering_angle = steer_value, throttle = throttle_value,
                 mpc_x = fst mpc_vals, mpc_y = snd mpc_vals,
                 next_x = fst next_vals, next_y = snd next_vals\<rparr>))"

definition steer_frame :: "ext \<Rightarrow> msg_json \<Rightarrow> string" where
  "steer_frame E msgJson = ''42[\"steer\",'' @ json_dump E msgJson @ '']''"

definition manual_frame :: string where
  "manual_frame = ''42[\"manual\",{}]''"

subsection \<open>The handler (lines 73-205)\<close>

text \<open>Lines 127-194, from the fitted coefficients to the reply.\<close>

definition invoke_controller :: "ext \<Rightarrow> real \<Rightarrow> real list \<Rightarrow> outcome \<times> event list" where
  "invoke_controller E v coeffs =
     (case vehicle_state v coeffs of
        Inl e \<Rightarrow> (Failed e, [])
      | Inr state \<Rightarrow>
          (let result = mpc_Solve E state coeffs
           in case steer_message result coeffs of
                Inl e \<Rightarrow> (Failed e, [Solve state coeffs])
              | Inr msgJson \<Rightarrow>
                  (Returned, [Solve state coeffs, Sleep 100, Send (steer_frame E msgJson)])))"

text \<open>Lines 90-194, the branch for the event \<open>telemetry\<close>; \<open>j\<close> is the parsed envelope.\<close>

definition on_telemetry :: "ext \<Rightarrow> json \<Rightarrow> outcome \<times> event list" where
  "on_telemetry E j =
     (case json_at j 1 of Inl e \<Rightarrow> (Failed e, []) | Inr j1 \<Rightarrow>
      case read_telemetry j1 of Inl e \<Rightarrow> (Failed e, []) | Inr t \<Rightarrow>
      case to_car_frame t of Inl e \<Rightarrow> (Failed e, []) | Inr car \<Rightarrow>
      case polyfit E (fst car) (snd car) 3 of
        Inl e \<Rightarrow> (Failed e, [Fit (fst car) (snd car) 3])
      | Inr coeffs \<Rightarrow>
          (let run = invoke_controller E (tm_speed t) coeffs
           in (fst run, Fit (fst car) (snd car) 3 # snd run)))"

text \<open>
  Line 79: \<open>string(data)\<close> stops at the first NUL character, and \<open>substr(0, length)\<close> keeps
  at most the \<open>length\<close> characters of the message. \<open>data\<close> is the text of the message.
\<close>

definition sdata_of :: "string \<Rightarrow> string" where
  "sdata_of data = take (length data) (takeWhile (\<lambda>c. c \<noteq> CHR 0x00) data)"

definition onMessage :: "ext \<Rightarrow> string \<Rightarrow> outcome \<times> event list" where
  "onMessage E data =
     (let sdata = sdata_of data
      in if length sdata > 2 \<and> sdata ! 0 = CHR ''4'' \<and> sdata ! 1 = CHR ''2''
         then (let s = hasData sdata
               in if s \<noteq> ''''
                  then (case json_parse E s of
                          None \<Rightarrow> (Failed Json_parse_error, [Parse s])
                        | Some j \<Rightarrow>
                            (case json_at j 0 of Inl e \<Rightarrow> (Failed e, [Parse s]) | Inr j0 \<Rightarrow>
                             case get_string j0 of Inl e \<Rightarrow> (Failed e, [Parse s]) | Inr event \<Rightarrow>
                               if event = ''telemetry''
                               then (let run = on_telemetry E j
                                     in (fst run, Parse s # snd run))
                               else (Returned, [Parse s])))
                  else (Returned, [Send manual_frame]))
         else (Returned, []))"

subsection \<open>Sample collaborators for concrete runs\<close>

text \<open>
  Concrete runs of the handler need concrete libraries. The sample parser knows three
  texts: a telemetry envelope with the waypoints \<open>(0,0), (1,1), (2,2), (3,3)\<close>, one with
  only the first three of them, and one with an empty payload object; it rejects every
  other text. The sample solver returns the cubic \<open>y = x\<close>, which fits those waypoints,
  the sample optimizer returns a given \<open>result\<close>, and the sample serializer writes
  every message as \<open>{}\<close>.
\<close>

definition sample_payload :: "real list \<Rightarrow> real list \<Rightarrow> json" where
  "sample_payload xs ys =
     JObj [(''ptsx'', JArr (map JNum xs)), (''ptsy'', JArr (map JNum ys)),
           (''x'', JNum 0), (''y'', JNum 0), (''psi'', JNum 0), (''speed'', JNum 5),
           (''steering_angle'', JNum 0), (''throttle'', JNum 0)]"

definition text_4_points :: string where
  "text_4_points =
     ''[\"telemetry\",{\"ptsx\":[0,1,2,3],\"ptsy\":[0,1,2,3],\"x\":0,\"y\":0,\"psi\":0,\"speed\":5,\"steering_angle\":0,\"throttle\":0}]''"

definition text_3_points :: string where
  "text_3_points =
     ''[\"telemetry\",{\"ptsx\":[0,1,2],\"ptsy\":[0,1,2],\"x\":0,\"y\":0,\"psi\":0,\"speed\":5,\"steering_angle\":0,\"throttle\":0}]''"

definition text_no_fields :: string where
  "text_no_fields = ''[\"telemetry\",{}]''"

text \<open>The frame that carries a text: the prefix \<open>42\<close>, then the text.\<close>

definition frame_of :: "string \<Rightarrow> string" where
  "frame_of text = ''42'' @ text"

definition sample_parse :: "string \<Rightarrow> json option" where
  "sample_parse s =
     (if s = text_4_points
      then Some (JArr [JStr ''telemetry'', sample_payload [0, 1, 2, 3] [0, 1, 2, 3]])
      else if s = text_3_points
      then Some (JArr [JStr ''telemetry'', sample_payload [0, 1, 2] [0, 1, 2]])
      else if s = text_no_fields
      then Some (JArr [JStr ''telemetry'', JObj []])
      else None)"

definition sample_ext :: "real list \<Rightarrow> ext" where
  "sample_ext result =
     \<lparr>json_parse = sample_parse,
      householderQr_solve = (\<lambda>A y. [0, 1, 0, 0]),
      mpc_Solve = (\<lambda>state coeffs. result),
      json_dump = (\<lambda>m. ''{}'')\<rparr>"

subsection \<open>From the car frame back to the world frame\<close>


subsection \<open>A second sample: waypoints on a cubic\<close>

text \<open>
  The second sample parser knows three texts: a telemetry envelope with the waypoints
  \<open>(0,1), (1,10), (2,49), (3,142)\<close>, which lie on \<open>y = 1 + 2x + 3x\<^sup>2 + 4x\<^sup>3\<close>, the same
  envelope without the field \<open>y\<close>, and the same envelope with a string in the place of
  \<open>ptsy\<close>; it rejects every other text. The solver returns the coefficients of that cubic,
  and the optimizer returns \<open>[0.1, 0.5, 10, 1, 20, 2]\<close>.
\<close>

definition text_cubic :: string where
  "text_cubic =
     ''[\"telemetry\",{\"ptsx\":[0,1,2,3],\"ptsy\":[1,10,49,142],\"x\":0,\"y\":0,\"psi\":0,\"speed\":5,\"steering_angle\":0,\"throttle\":0}]''"

definition text_no_y :: string where
  "text_no_y =
     ''[\"telemetry\",{\"ptsx\":[0,1,2,3],\"ptsy\":[1,10,49,142],\"x\":0,\"psi\":0,\"speed\":5,\"steering_angle\":0,\"throttle\":0}]''"

definition text_bad_ptsy :: string where
  "text_bad_ptsy =
     ''[\"telemetry\",{\"ptsx\":[0,1,2,3],\"ptsy\":\"none\",\"x\":0,\"y\":0,\"psi\":0,\"speed\":5,\"steering_angle\":0,\"throttle\":0}]''"

definition cubic_parse :: "string \<Rightarrow> json option" where
  "cubic_parse s =
     (if s = text_cubic
      then Some (JArr [JStr ''telemetry'', sample_payload [0, 1, 2, 3] [1, 10, 49, 142]])
      else if s = text_no_y
      then Some (JArr [JStr ''telemetry'',
             JObj [(''ptsx'', JArr (map JNum [0, 1, 2, 3])),
                   (''ptsy'', JArr (map JNum [1, 10, 49, 142])),
                   (''x'', JNum 0), (''psi'', JNum 0), (''speed'', JNum 5),
                   (''steering_angle'', JNum 0), (''throttle'', JNum 0)]])
      else if s = text_bad_ptsy
      then Some (JArr [JStr ''telemetry'',
             JObj [(''ptsx'', JArr (map JNum [0, 1, 2, 3])), (''ptsy'', JStr ''none''),
                   (''x'', JNum 0), (''y'', JNum 0), (''psi'', JNum 0), (''speed'', JNum 5),
                   (''steering_angle'', JNum 0), (''throttle'', JNum 0)]])
      else None)"

definition cubic_ext :: ext where
  "cubic_ext =
     \<lparr>json_parse = cubic_parse,
      householderQr_solve = (\<lambda>A y. [1, 2, 3, 4]),
      mpc_Solve = (\<lambda>state coeffs. [0.1, 0.5, 10, 1, 20, 2]),
      json_dump = (\<lambda>m. ''{}'')\<rparr>"

section \<open>Properties\<close>

subsection \<open>The loops in closed form\<close>

lemma polyeval_loop_sum:
  "polyeval_loop coeffs x i r = r + (\<Sum>k = i..<length coeffs. coeffs ! k * x ^ k)"
proof (induction coeffs x i r rule: polyeval_loop.induct)
  case (1 coeffs x i result)
  show ?case
  proof (cases "i < length coeffs")
    case True
    then have "polyeval_loop coeffs x i result =
        polyeval_loop coeffs x (i + 1) (result + coeffs ! i * x ^ i)"
      by (subst polyeval_loop.simps) simp
    with 1 [OF True] True show ?thesis
      by (simp add: sum.atLeast_Suc_lessThan add.assoc)
  next
    case False
    then show ?thesis
      by (subst polyeval_loop.simps) simp
  qed
qed

lemma polyeval_sum: "polyeval coeffs x = (\<Sum>k = 0..<length coeffs. coeffs ! k * x ^ k)"
  by (simp add: polyeval_def polyeval_loop_sum)

lemma polyeval_at_0: "0 < length coeffs \<Longrightarrow> polyeval coeffs 0 = coeffs ! 0"
  by (simp add: polyeval_sum sum.atLeast_Suc_lessThan)

lemma next_vals_loop_map:
  "next_vals_loop coeffs d num i vals =
     (fst vals @ map (\<lambda>k. d * real k) [i..<num],
      snd vals @ map (\<lambda>k. polyeval coeffs (d * real k)) [i..<num])"
proof (induction coeffs d num i vals rule: next_vals_loop.induct)
  case (1 coeffs d num i vals)
  show ?case
  proof (cases "i < num")
    case True
    then have "next_vals_loop coeffs d num i vals =
        next_vals_loop coeffs d num (i + 1)
          (fst vals @ [d * real i], snd vals @ [polyeval coeffs (d * real i)])"
      by (subst next_vals_loop.simps) simp
    with 1 [OF True] True show ?thesis
      by (simp add: upt_conv_Cons)
  next
    case False
    then show ?thesis
      by (subst next_vals_loop.simps) simp
  qed
qed

lemma mpc_vals_loop_filter:
  "mpc_vals_loop result i vals =
     (fst vals @ map (\<lambda>k. result ! k) (filter even [i..<length result]),
      snd vals @ map (\<lambda>k. result ! k) (filter odd [i..<length result]))"
proof (induction result i vals rule: mpc_vals_loop.induct)
  case (1 result i vals)
  show ?case
  proof (cases "i < length result")
    case True
    then have step: "mpc_vals_loop result i vals =
        mpc_vals_loop result (i + 1)
          (if i mod 2 = 0 then (fst vals @ [result ! i], snd vals)
           else (fst vals, snd vals @ [result ! i]))"
      by (subst mpc_vals_loop.simps) simp
    show ?thesis
    proof (cases "even i")
      case even: True
      with step 1 [OF True] True show ?thesis
        by (simp add: upt_conv_Cons even_iff_mod_2_eq_zero)
    next
      case odd: False
      with step 1 [OF True] True show ?thesis
        by (simp add: upt_conv_Cons even_iff_mod_2_eq_zero)
    qed
  next
    case False
    then show ?thesis
      by (subst mpc_vals_loop.simps) simp
  qed
qed

lemma car_frame_loop_map:
  assumes "length ptsx \<le> length ptsy"
    and "length (fst car) = length ptsx" and "length (snd car) = length ptsx"
  shows "car_frame_loop px py psi ptsx ptsy i car =
     Inr (take i (fst car) @
            map (\<lambda>k. fst (transformToVehicle px py psi (ptsx ! k, ptsy ! k))) [i..<length ptsx],
          take i (snd car) @
            map (\<lambda>k. snd (transformToVehicle px py psi (ptsx ! k, ptsy ! k))) [i..<length ptsx])"
  using assms
proof (induction px py psi ptsx ptsy i car rule: car_frame_loop.induct)
  case (1 px py psi ptsx ptsy i car)
  show ?case
  proof (cases "i < length ptsx")
    case True
    define q where "q = transformToVehicle px py psi (ptsx ! i, ptsy ! i)"
    define car' where "car' = ((fst car)[i := fst q], (snd car)[i := snd q])"
    from True "1.prems" have iy: "i < length ptsy" by simp
    have step: "car_frame_loop px py psi ptsx ptsy i car =
        car_frame_loop px py psi ptsx ptsy (i + 1) car'"
      using True iy by (subst car_frame_loop.simps) (simp add: q_def car'_def Let_def)
    have ih: "car_frame_loop px py psi ptsx ptsy (i + 1) car' =
        Inr (take (i + 1) (fst car') @
               map (\<lambda>k. fst (transformToVehicle px py psi (ptsx ! k, ptsy ! k)))
                 [i + 1..<length ptsx],
             take (i + 1) (snd car') @
               map (\<lambda>k. snd (transformToVehicle px py psi (ptsx ! k, ptsy ! k)))
                 [i + 1..<length ptsx])"
      unfolding car'_def q_def
      by (rule "1.IH" [OF True iy refl]) (use "1.prems" in simp_all)
    have tx: "take (i + 1) (fst car') = take i (fst car) @ [fst q]"
      using True "1.prems" by (simp add: car'_def take_Suc_conv_app_nth)
    have ty: "take (i + 1) (snd car') = take i (snd car) @ [snd q]"
      using True "1.prems" by (simp add: car'_def take_Suc_conv_app_nth)
    have up: "[i..<length ptsx] = i # [i + 1..<length ptsx]"
      using True by (simp add: upt_conv_Cons)
    show ?thesis
      unfolding step ih tx ty by (simp add: up q_def)
  next
    case False
    with "1.prems" show ?thesis
      by (subst car_frame_loop.simps) simp
  qed
qed

lemma to_car_frame_map:
  "length (tm_ptsx t) \<le> length (tm_ptsy t) \<Longrightarrow>
   to_car_frame t =
     Inr (map (\<lambda>k. fst (transformToVehicle (tm_x t) (tm_y t) (tm_psi t)
                           (tm_ptsx t ! k, tm_ptsy t ! k))) [0..<length (tm_ptsx t)],
          map (\<lambda>k. snd (transformToVehicle (tm_x t) (tm_y t) (tm_psi t)
                           (tm_ptsx t ! k, tm_ptsy t ! k))) [0..<length (tm_ptsx t)])"
  by (simp add: to_car_frame_def car_frame_loop_map Let_def)

subsection \<open>The reply in closed form\<close>

lemma steer_message_closed:
  assumes "2 \<le> length result"
  shows "steer_message result coeffs =
     Inr \<lparr>steering_angle = result ! 0, throttle = result ! 1,
          mpc_x = map (\<lambda>i. result ! i) (filter even [2..<length result]),
          mpc_y = map (\<lambda>i. result ! i) (filter odd [2..<length result]),
          next_x = map (\<lambda>i. 2.5 * real i) [0..<25],
          next_y = map (\<lambda>i. polyeval coeffs (2.5 * real i)) [0..<25]\<rparr>"
proof -
  from assms have "0 < length result" "1 < length result"
    by linarith+
  then show ?thesis
    by (simp add: steer_message_def vector_at_def next_vals_loop_map mpc_vals_loop_filter)
qed

lemma steer_message_short:
  "length result < 2 \<Longrightarrow> steer_message result coeffs = Inl Out_of_bounds_read"
  by (auto simp: steer_message_def vector_at_def)

lemma filter_odd_from_2: "filter odd [2..<n] = filter odd [3..<n]"
proof (cases "2 < n")
  case True
  then have "[2..<n] = 2 # [3..<n]"
    by (simp add: upt_conv_Cons numeral_3_eq_3)
  then show ?thesis by simp
next
  case False
  then show ?thesis by simp
qed

subsection \<open>The state vector\<close>

text \<open>
  C6. For four coefficients and a speed \<open>v\<close>, the cross-track error \<open>polyeval coeffs 0\<close> is
  \<open>coeffs[0]\<close>, the heading error is \<open>- arctan coeffs[1]\<close>, and the state is
  \<open>(0, 0, 0, v, cte, epsi)\<close>; this state is what the handler passes to the optimizer.
\<close>

theorem vehicle_state_of_model:
  assumes "length coeffs = 4"
  shows "polyeval coeffs 0 = coeffs ! 0
       \<and> vehicle_state v coeffs = Inr [0, 0, 0, v, coeffs ! 0, - arctan (coeffs ! 1)]
       \<and> hd (snd (invoke_controller E v coeffs)) =
           Solve [0, 0, 0, v, coeffs ! 0, - arctan (coeffs ! 1)] coeffs"
proof -
  from assms have s: "vehicle_state v coeffs = Inr [0, 0, 0, v, coeffs ! 0, - arctan (coeffs ! 1)]"
    by (simp add: vehicle_state_def eigen_at_def polyeval_at_0)
  then have "hd (snd (invoke_controller E v coeffs)) =
      Solve [0, 0, 0, v, coeffs ! 0, - arctan (coeffs ! 1)] coeffs"
    by (simp add: invoke_controller_def Let_def split: sum.splits)
  with s assms show ?thesis
    by (simp add: polyeval_at_0)
qed

theorem vehicle_state_of_model_witness:
  "length [1, 2, 3, 4 :: real] = 4
     \<and> polyeval [1, 2, 3, 4] 0 = 1
     \<and> vehicle_state 5 [1, 2, 3, 4] = Inr [0, 0, 0, 5, 1, - arctan 2]
     \<and> hd (snd (invoke_controller (sample_ext [0.1, 0.5]) 5 [1, 2, 3, 4])) =
         Solve [0, 0, 0, 5, 1, - arctan 2] [1, 2, 3, 4]"
  using vehicle_state_of_model [of "[1, 2, 3, 4]" 5 "sample_ext [0.1, 0.5]"] by simp

subsection \<open>\<open>hasData\<close> and the frame test\<close>

lemma find_first_of_less: "find_first_of chars s = Some p \<Longrightarrow> p < length s"
  by (induction s arbitrary: p) (auto split: if_splits)

lemma hasData_null: "find ''null'' s \<noteq> None \<Longrightarrow> hasData s = ''''"
  by (simp add: hasData_def)

lemma hasData_no_open: "find_first_of ''['' s = None \<Longrightarrow> hasData s = ''''"
  by (simp add: hasData_def)

lemma hasData_no_close: "rfind ''}]'' s = None \<Longrightarrow> hasData s = ''''"
  by (simp add: hasData_def split: option.splits)

lemma prefix_42:
  assumes "prefix ''42'' s"
  obtains rest where "s = CHR ''4'' # CHR ''2'' # rest"
  using assms by (auto simp: prefix_def)

lemma find_null_after_42:
  "find ''null'' (CHR ''4'' # CHR ''2'' # rest) = map_option (\<lambda>i. i + 2) (find ''null'' rest)"
  by (simp add: option.map_comp comp_def)

lemma onMessage_no_data:
  assumes "2 < length (sdata_of data)" and "prefix ''42'' (sdata_of data)"
    and "hasData (sdata_of data) = ''''"
  shows "onMessage E data = (Returned, [Send manual_frame])"
proof -
  from assms(2) obtain rest where "sdata_of data = CHR ''4'' # CHR ''2'' # rest"
    by (rule prefix_42)
  with assms(1,3) show ?thesis
    by (simp add: onMessage_def Let_def)
qed

lemma onMessage_data:
  assumes "2 < length (sdata_of data)" and "prefix ''42'' (sdata_of data)"
    and "hasData (sdata_of data) = s" and "s \<noteq> ''''"
  shows "onMessage E data =
     (case json_parse E s of
        None \<Rightarrow> (Failed Json_parse_error, [Parse s])
      | Some j \<Rightarrow>
          (case json_at j 0 of Inl e \<Rightarrow> (Failed e, [Parse s]) | Inr j0 \<Rightarrow>
           case get_string j0 of Inl e \<Rightarrow> (Failed e, [Parse s]) | Inr event \<Rightarrow>
             if event = ''telemetry''
             then (fst (on_telemetry E j), Parse s # snd (on_telemetry E j))
             else (Returned, [Parse s])))"
proof -
  from assms(2) obtain rest where "sdata_of data = CHR ''4'' # CHR ''2'' # rest"
    by (rule prefix_42)
  with assms(1,3,4) show ?thesis
    by (simp add: onMessage_def Let_def split: option.splits sum.splits)
qed

lemma frame_of_facts [simp]:
  "prefix ''42'' (frame_of text)" "length (frame_of text) = length text + 2"
  by (simp_all add: frame_of_def)

lemma onMessage_short:
  "length (sdata_of data) \<le> 2 \<Longrightarrow> onMessage E data = (Returned, [])"
  by (simp add: onMessage_def Let_def)

subsection \<open>The sample runs\<close>

lemma hasData_text_4_points: "hasData (frame_of text_4_points) = text_4_points"
  by (simp add: hasData_def substr_def text_4_points_def frame_of_def)

lemma hasData_text_3_points: "hasData (frame_of text_3_points) = text_3_points"
  by (simp add: hasData_def substr_def text_3_points_def frame_of_def)

lemma hasData_text_no_fields: "hasData (frame_of text_no_fields) = text_no_fields"
  by (simp add: hasData_def substr_def text_no_fields_def frame_of_def)

lemma sdata_of_sample [simp]:
  "sdata_of (frame_of text_4_points) = frame_of text_4_points"
  "sdata_of (frame_of text_3_points) = frame_of text_3_points"
  "sdata_of (frame_of text_no_fields) = frame_of text_no_fields"
  by (simp_all add: sdata_of_def text_4_points_def text_3_points_def text_no_fields_def frame_of_def)

lemma read_sample_payload:
  "read_telemetry (sample_payload xs ys) =
     Inr \<lparr>tm_x = 0, tm_y = 0, tm_psi = 0, tm_speed = 5, tm_steering_angle = 0,
          tm_throttle = 0, tm_ptsx = xs, tm_ptsy = ys\<rparr>"
proof -
  have g: "get_doubles (map JNum zs) = Inr zs" for zs
    by (induction zs) (simp_all add: get_double_def)
  show ?thesis
    by (simp add: read_telemetry_def sample_payload_def double_field_def vector_field_def
          json_field_def get_double_def get_vector_def g)
qed

lemma on_telemetry_sample:
  assumes "length xs = length ys"
  shows "on_telemetry (sample_ext result) (JArr [JStr ''telemetry'', sample_payload xs ys]) =
     (case polyfit (sample_ext result) xs ys 3 of
        Inl e \<Rightarrow> (Failed e, [Fit xs ys 3])
      | Inr coeffs \<Rightarrow>
          (fst (invoke_controller (sample_ext result) 5 coeffs),
           Fit xs ys 3 # snd (invoke_controller (sample_ext result) 5 coeffs)))"
proof -
  let ?t = "\<lparr>tm_x = 0, tm_y = 0, tm_psi = 0, tm_speed = 5, tm_steering_angle = 0,
          tm_throttle = 0, tm_ptsx = xs, tm_ptsy = ys\<rparr>"
  have "to_car_frame ?t = Inr (map (\<lambda>k. xs ! k) [0..<length xs], map (\<lambda>k. ys ! k) [0..<length xs])"
    using assms by (simp add: to_car_frame_map transformToVehicle_def)
  also have "map (\<lambda>k. ys ! k) [0..<length xs] = ys"
    using assms by (simp add: map_nth)
  finally have "to_car_frame ?t = Inr (xs, ys)"
    by (simp add: map_nth)
  then show ?thesis
    by (simp add: on_telemetry_def json_at_def read_sample_payload Let_def split: sum.splits)
qed

lemma invoke_controller_sample:
  "invoke_controller (sample_ext result) 5 [0, 1, 0, 0] =
     (case steer_message result [0, 1, 0, 0] of
        Inl e \<Rightarrow> (Failed e, [Solve [0, 0, 0, 5, 0, - arctan 1] [0, 1, 0, 0]])
      | Inr m \<Rightarrow>
          (Returned, [Solve [0, 0, 0, 5, 0, - arctan 1] [0, 1, 0, 0], Sleep 100,
                      Send ''42[\"steer\",{}]'']))"
  by (simp add: invoke_controller_def vehicle_state_def eigen_at_def polyeval_at_0
        sample_ext_def steer_frame_def Let_def split: sum.splits)

lemma onMessage_sample_4_points:
  "onMessage (sample_ext result) (frame_of text_4_points) =
     (case steer_message result [0, 1, 0, 0] of
        Inl e \<Rightarrow> (Failed e, [Parse text_4_points, Fit [0, 1, 2, 3] [0, 1, 2, 3] 3,
                     Solve [0, 0, 0, 5, 0, - arctan 1] [0, 1, 0, 0]])
      | Inr m \<Rightarrow>
          (Returned, [Parse text_4_points, Fit [0, 1, 2, 3] [0, 1, 2, 3] 3,
                      Solve [0, 0, 0, 5, 0, - arctan 1] [0, 1, 0, 0], Sleep 100,
                      Send ''42[\"steer\",{}]'']))"
proof -
  have p: "json_parse (sample_ext result) text_4_points =
      Some (JArr [JStr ''telemetry'', sample_payload [0, 1, 2, 3] [0, 1, 2, 3]])"
    by (simp add: sample_ext_def sample_parse_def)
  have f: "polyfit (sample_ext result) [0, 1, 2, 3] [0, 1, 2, 3] 3 = Inr [0, 1, 0, 0]"
    by (simp add: polyfit_def sample_ext_def)
  have n: "text_4_points \<noteq> ''''"
    by (simp add: text_4_points_def)
  have "onMessage (sample_ext result) (frame_of text_4_points) =
      (fst (invoke_controller (sample_ext result) 5 [0, 1, 0, 0]),
       Parse text_4_points # Fit [0, 1, 2, 3] [0, 1, 2, 3] 3 #
         snd (invoke_controller (sample_ext result) 5 [0, 1, 0, 0]))"
    by (subst onMessage_data [where s = text_4_points])
      (simp_all add: hasData_text_4_points n p json_at_def get_string_def on_telemetry_sample f)
  then show ?thesis
    by (simp add: invoke_controller_sample split: sum.splits)
qed

lemma onMessage_sample_3_points:
  "onMessage (sample_ext result) (frame_of text_3_points) =
     (Failed Assertion_abort, [Parse text_3_points, Fit [0, 1, 2] [0, 1, 2] 3])"
proof -
  have d: "text_3_points \<noteq> text_4_points"
    by (simp add: text_3_points_def text_4_points_def)
  have p: "json_parse (sample_ext result) text_3_points =
      Some (JArr [JStr ''telemetry'', sample_payload [0, 1, 2] [0, 1, 2]])"
    by (simp add: sample_ext_def sample_parse_def d)
  have f: "polyfit (sample_ext result) [0, 1, 2] [0, 1, 2] 3 = Inl Assertion_abort"
    by (simp add: polyfit_def)
  have n: "text_3_points \<noteq> ''''"
    by (simp add: text_3_points_def)
  show ?thesis
    by (subst onMessage_data [where s = text_3_points])
      (simp_all add: hasData_text_3_points n p json_at_def get_string_def on_telemetry_sample f)
qed

subsection \<open>Too few waypoints\<close>

text \<open>
  C1, as the code has it. \<open>polyfit\<close> guards its input with \<open>assert\<close>: for vectors of
  equal length and an order of at least 1, the fit fails exactly when there are fewer than
  \<open>order + 1\<close> points, and the failure is always the failed assertion, which aborts the
  process; no error value comes back to the caller. Otherwise the result is the solver's.
\<close>

theorem polyfit_aborts_iff_too_few_points:
  assumes "length xvals = length yvals" and "1 \<le> order"
  shows "(polyfit E xvals yvals order = Inl Assertion_abort) = (int (length xvals) < order + 1)
       \<and> (\<forall>e. polyfit E xvals yvals order = Inl e \<longrightarrow> e = Assertion_abort)
       \<and> (order + 1 \<le> int (length xvals) \<longrightarrow>
            polyfit E xvals yvals order =
              Inr (householderQr_solve E (design_matrix xvals (nat order)) yvals))"
  using assms by (auto simp: polyfit_def)

theorem polyfit_aborts_iff_too_few_points_witness:
  "length [0, 1, 2 :: real] = length [0, 1, 2 :: real] \<and> (1 :: int) \<le> 3
     \<and> polyfit (sample_ext []) [0, 1, 2] [0, 1, 2] 3 = Inl Assertion_abort
     \<and> polyfit (sample_ext []) [0, 1, 2, 3] [0, 1, 2, 3] 3 = Inr [0, 1, 0, 0]"
  using polyfit_aborts_iff_too_few_points [of "[0, 1, 2]" "[0, 1, 2]" 3 "sample_ext []"]
    polyfit_aborts_iff_too_few_points [of "[0, 1, 2, 3]" "[0, 1, 2, 3]" 3 "sample_ext []"]
  by (simp add: sample_ext_def)

text \<open>
  The claim fails on a telemetry frame with three waypoints: the handler calls \<open>polyfit\<close>
  without looking at their number, and the run ends in the abort, not in an error result.
\<close>

theorem three_waypoints_abort:
  "onMessage (sample_ext [0.1, 0.5]) (frame_of text_3_points) =
     (Failed Assertion_abort, [Parse text_3_points, Fit [0, 1, 2] [0, 1, 2] 3])"
  by (rule onMessage_sample_3_points)

subsection \<open>An optimizer result of odd length\<close>

lemma filter_even_snoc:
  assumes "3 \<le> n" and "odd n"
  shows "filter even [2..<n] = filter even [2..<n - 1] @ [n - 1]"
    and "filter odd [2..<n] = filter odd [2..<n - 1]"
proof -
  from assms have n: "n = Suc (n - 1)" "2 \<le> n - 1" "even (n - 1)"
    by simp_all
  have "[2..<n] = [2..<n - 1] @ [n - 1]"
    by (subst n(1)) (simp only: upt_Suc n(2) if_True)
  with n(3) show "filter even [2..<n] = filter even [2..<n - 1] @ [n - 1]"
    and "filter odd [2..<n] = filter odd [2..<n - 1]"
    by simp_all
qed

text \<open>
  C2, as the code has it. The handler does not validate what the optimizer returned. When
  the result has at least two elements and an odd number of elements after the first two,
  nothing is raised: the handler returns normally and sends the steer frame after the
  sleep, and the last element of the result is emitted as the last element of \<open>mpc_x\<close>.
\<close>

theorem odd_trajectory_is_sent:
  assumes "vehicle_state v coeffs = Inr state" and "mpc_Solve E state coeffs = result"
    and "2 \<le> length result" and "odd (length result - 2)"
  shows "\<exists>m. invoke_controller E v coeffs =
               (Returned, [Solve state coeffs, Sleep 100, Send (steer_frame E m)])
           \<and> steer_message result coeffs = Inr m
           \<and> mpc_x m = map (\<lambda>i. result ! i) (filter even [2..<length result - 1]) @ [last result]
           \<and> mpc_y m = map (\<lambda>i. result ! i) (filter odd [2..<length result - 1])"
proof -
  from assms(3,4) have n: "3 \<le> length result" "odd (length result)"
    by (cases "length result = 2"; simp)+
  then have ne: "result \<noteq> []"
    by auto
  have l: "result ! (length result - Suc 0) = last result"
    using ne by (simp add: last_conv_nth)
  show ?thesis
    using assms(1,2)
    by (simp add: invoke_controller_def Let_def steer_message_closed [OF assms(3)]
          filter_even_snoc [OF n] l)
qed

theorem odd_trajectory_is_sent_witness:
  "\<exists>m. invoke_controller (sample_ext [0.1, 0.5, 10]) 5 [0, 1, 0, 0] =
          (Returned, [Solve [0, 0, 0, 5, 0, - arctan 1] [0, 1, 0, 0], Sleep 100,
                      Send (steer_frame (sample_ext [0.1, 0.5, 10]) m)])
      \<and> mpc_x m = [10] \<and> mpc_y m = []"
proof -
  have s: "vehicle_state 5 [0, 1, 0, 0] = Inr [0, 0, 0, 5, 0, - arctan 1]"
    by (simp add: vehicle_state_def eigen_at_def polyeval_at_0)
  have r: "mpc_Solve (sample_ext [0.1, 0.5, 10]) [0, 0, 0, 5, 0, - arctan 1] [0, 1, 0, 0] =
      [0.1, 0.5, 10]"
    by (simp add: sample_ext_def)
  from odd_trajectory_is_sent [OF s r]
  have "\<exists>m. invoke_controller (sample_ext [0.1, 0.5, 10]) 5 [0, 1, 0, 0] =
          (Returned, [Solve [0, 0, 0, 5, 0, - arctan 1] [0, 1, 0, 0], Sleep 100,
                      Send (steer_frame (sample_ext [0.1, 0.5, 10]) m)])
      \<and> steer_message [0.1, 0.5, 10] [0, 1, 0, 0] = Inr m
      \<and> mpc_x m = [10] \<and> mpc_y m = []"
    by simp
  then show ?thesis
    by blast
qed

text \<open>
  The claim fails on the result \<open>[0.1, 0.5, 10]\<close>: the reply is sent, with \<open>10\<close> in
  \<open>mpc_x\<close> and nothing in \<open>mpc_y\<close>.
\<close>

theorem odd_trajectory_reply:
  "onMessage (sample_ext [0.1, 0.5, 10]) (frame_of text_4_points) =
     (Returned, [Parse text_4_points, Fit [0, 1, 2, 3] [0, 1, 2, 3] 3,
                 Solve [0, 0, 0, 5, 0, - arctan 1] [0, 1, 0, 0], Sleep 100,
                 Send ''42[\"steer\",{}]''])
   \<and> map_sum id mpc_x (steer_message [0.1, 0.5, 10] [0, 1, 0, 0]) = Inr [10]
   \<and> map_sum id mpc_y (steer_message [0.1, 0.5, 10] [0, 1, 0, 0]) = Inr []"
proof -
  have "2 \<le> length [0.1, 0.5, 10 :: real]"
    by simp
  from steer_message_closed [OF this, of "[0, 1, 0, 0]"] show ?thesis
    by (simp add: onMessage_sample_4_points)
qed

subsection \<open>Frames without a payload\<close>

text \<open>
  C4, as the code has it. A frame of more than two characters that begins with \<open>42\<close> and
  in which \<open>hasData\<close> finds no payload is answered with exactly \<open>42["manual",{}]\<close>, and
  nothing else happens: the handler returns, and the one event of the run is that reply
  (no parse, no fit, no call of the optimizer, no sleep).
\<close>

theorem manual_reply_without_payload:
  assumes "2 < length (sdata_of data)" and "prefix ''42'' (sdata_of data)"
    and "hasData (sdata_of data) = ''''"
  shows "onMessage E data = (Returned, [Send ''42[\"manual\",{}]''])"
  using onMessage_no_data [OF assms] by (simp add: manual_frame_def)

theorem manual_reply_without_payload_witness:
  "2 < length (sdata_of ''42[\"telemetry\",null]'')
     \<and> prefix ''42'' (sdata_of ''42[\"telemetry\",null]'')
     \<and> hasData (sdata_of ''42[\"telemetry\",null]'') = ''''
     \<and> onMessage (sample_ext [0.1, 0.5]) ''42[\"telemetry\",null]'' =
         (Returned, [Send ''42[\"manual\",{}]''])"
proof -
  have s: "sdata_of ''42[\"telemetry\",null]'' = ''42[\"telemetry\",null]''"
    by (simp add: sdata_of_def)
  have h: "hasData ''42[\"telemetry\",null]'' = ''''"
    by (simp add: hasData_def)
  from manual_reply_without_payload [of "''42[\"telemetry\",null]''" "sample_ext [0.1, 0.5]"]
  show ?thesis
    by (simp add: s h)
qed

text \<open>
  The claim fails on the frame that is the prefix alone: it has no payload, and the handler
  sends nothing, because it only looks at frames of more than two characters.
\<close>

theorem bare_prefix_gets_no_reply:
  "prefix ''42'' (sdata_of ''42'') \<and> hasData (sdata_of ''42'') = ''''
     \<and> onMessage (sample_ext [0.1, 0.5]) ''42'' = (Returned, [])"
  by (simp add: sdata_of_def hasData_def onMessage_def)

subsection \<open>Payload sniffing\<close>

text \<open>
  C10, as the code has it. For a frame of more than two characters that begins with
  \<open>42\<close>: if the text after the prefix contains \<open>null\<close> anywhere, or the frame has no
  \<open>[\<close>, or no \<open>}]\<close>, the handler sends the manual reply and nothing else. The witness
  is a telemetry frame with all its fields and one more whose value is the string
  \<open>null\<close>.
\<close>

theorem sniffing_gives_manual_reply:
  assumes "2 < length (sdata_of data)" and "prefix ''42'' (sdata_of data)"
    and "find ''null'' (drop 2 (sdata_of data)) \<noteq> None
         \<or> find_first_of ''['' (sdata_of data) = None
         \<or> rfind ''}]'' (sdata_of data) = None"
  shows "onMessage E data = (Returned, [Send manual_frame])"
proof -
  from assms(2) obtain rest where r: "sdata_of data = CHR ''4'' # CHR ''2'' # rest"
    by (rule prefix_42)
  have "find ''null'' (drop 2 (sdata_of data)) \<noteq> None \<Longrightarrow> find ''null'' (sdata_of data) \<noteq> None"
    unfolding r find_null_after_42 by simp
  with assms(3) have "hasData (sdata_of data) = ''''"
    using hasData_null hasData_no_open hasData_no_close by blast
  with assms(1,2) show ?thesis
    by (rule onMessage_no_data)
qed

theorem sniffing_gives_manual_reply_witness:
  "onMessage (sample_ext [0.1, 0.5, 10, 1, 20, 2])
     ''42[\"telemetry\",{\"ptsx\":[0,1,2,3],\"ptsy\":[0,1,2,3],\"x\":0,\"y\":0,\"psi\":0,\"speed\":5,\"steering_angle\":0,\"throttle\":0,\"note\":\"null\"}]'' =
     (Returned, [Send manual_frame])"
proof -
  let ?d = "''42[\"telemetry\",{\"ptsx\":[0,1,2,3],\"ptsy\":[0,1,2,3],\"x\":0,\"y\":0,\"psi\":0,\"speed\":5,\"steering_angle\":0,\"throttle\":0,\"note\":\"null\"}]''"
  have s: "sdata_of ?d = ?d"
    by (simp add: sdata_of_def)
  have "find ''null'' (drop 2 (sdata_of ?d)) \<noteq> None"
    unfolding s by simp
  then show ?thesis
    by (intro sniffing_gives_manual_reply disjI1) (simp_all add: s)
qed

text \<open>
  The claim fails on the frame that is the prefix alone: it has no \<open>[\<close>, and no reply is
  sent.
\<close>

theorem bare_prefix_is_not_sniffed:
  "find_first_of ''['' (sdata_of ''42'') = None
     \<and> onMessage (sample_ext [0.1, 0.5, 10, 1, 20, 2]) ''42'' \<noteq> (Returned, [Send manual_frame])"
  by (simp add: sdata_of_def onMessage_def)

subsection \<open>Malformed envelopes\<close>

lemma json_at_failure: "json_at j i = Inl e \<Longrightarrow> e = Json_type_error"
  by (cases j) (auto simp: json_at_def split: if_splits)

lemma get_string_failure: "get_string j = Inl e \<Longrightarrow> e = Json_type_error"
  by (cases j) (auto simp: get_string_def)

lemma read_telemetry_failure: "read_telemetry j1 = Inl e \<Longrightarrow> e = Json_type_error"
proof -
  have d: "double_field j k = Inl x \<Longrightarrow> x = Json_type_error" for j k x
    by (auto simp: double_field_def json_field_def get_double_def
          split: sum.splits json.splits option.splits)
  have g: "get_doubles js = Inl x \<Longrightarrow> x = Json_type_error" for js x
    by (induction js) (auto simp: get_double_def split: sum.splits json.splits)
  have v: "vector_field j k = Inl x \<Longrightarrow> x = Json_type_error" for j k x
    by (auto simp: vector_field_def json_field_def get_vector_def dest: g
          split: sum.splits json.splits option.splits)
  assume "read_telemetry j1 = Inl e"
  then show ?thesis
    unfolding read_telemetry_def by (auto split: sum.splits dest: d v)
qed

lemma get_doubles_Inr: "get_doubles js = Inr rs \<Longrightarrow> js = map JNum rs"
proof (induction js arbitrary: rs)
  case Nil
  then show ?case by simp
next
  case (Cons j js)
  then show ?case
    by (cases j) (auto simp: get_double_def split: sum.splits)
qed

lemma double_field_Inr:
  "double_field (JObj kvs) k = Inr r \<Longrightarrow> map_of kvs k = Some (JNum r)"
  by (auto simp: double_field_def json_field_def get_double_def
        split: option.splits json.splits)

lemma vector_field_Inr:
  "vector_field (JObj kvs) k = Inr rs \<Longrightarrow> map_of kvs k = Some (JArr (map JNum rs))"
  by (auto simp: vector_field_def json_field_def get_vector_def
        split: option.splits json.splits dest: get_doubles_Inr)

lemma read_telemetry_Inr:
  assumes "read_telemetry j1 = Inr t"
  shows "\<exists>kvs. j1 = JObj kvs
     \<and> map_of kvs ''x'' = Some (JNum (tm_x t))
     \<and> map_of kvs ''y'' = Some (JNum (tm_y t))
     \<and> map_of kvs ''psi'' = Some (JNum (tm_psi t))
     \<and> map_of kvs ''speed'' = Some (JNum (tm_speed t))
     \<and> map_of kvs ''steering_angle'' = Some (JNum (tm_steering_angle t))
     \<and> map_of kvs ''throttle'' = Some (JNum (tm_throttle t))
     \<and> map_of kvs ''ptsx'' = Some (JArr (map JNum (tm_ptsx t)))
     \<and> map_of kvs ''ptsy'' = Some (JArr (map JNum (tm_ptsy t)))"
proof -
  from assms obtain px where x: "double_field j1 ''x'' = Inr px"
    by (auto simp: read_telemetry_def split: sum.splits)
  then obtain kvs where k: "j1 = JObj kvs"
    by (cases j1) (auto simp: double_field_def json_field_def)
  from assms have
    "double_field (JObj kvs) ''x'' = Inr (tm_x t)"
    "double_field (JObj kvs) ''y'' = Inr (tm_y t)"
    "double_field (JObj kvs) ''psi'' = Inr (tm_psi t)"
    "double_field (JObj kvs) ''speed'' = Inr (tm_speed t)"
    "double_field (JObj kvs) ''steering_angle'' = Inr (tm_steering_angle t)"
    "double_field (JObj kvs) ''throttle'' = Inr (tm_throttle t)"
    "vector_field (JObj kvs) ''ptsx'' = Inr (tm_ptsx t)"
    "vector_field (JObj kvs) ''ptsy'' = Inr (tm_ptsy t)"
    unfolding k read_telemetry_def by (auto split: sum.splits)
  with k show ?thesis
    by (auto dest!: double_field_Inr vector_field_Inr)
qed

lemma read_telemetry_malformed:
  assumes "(\<forall>kvs. j1 \<noteq> JObj kvs)
     \<or> (\<exists>kvs k. j1 = JObj kvs
          \<and> k \<in> set [''x'', ''y'', ''psi'', ''speed'', ''steering_angle'', ''throttle'']
          \<and> (\<forall>r. map_of kvs k \<noteq> Some (JNum r)))
     \<or> (\<exists>kvs k. j1 = JObj kvs \<and> k \<in> set [''ptsx'', ''ptsy'']
          \<and> (\<forall>rs. map_of kvs k \<noteq> Some (JArr (map JNum rs))))"
  shows "read_telemetry j1 = Inl Json_type_error"
proof (cases "read_telemetry j1")
  case (Inl e)
  then show ?thesis
    using read_telemetry_failure by blast
next
  case (Inr t)
  from read_telemetry_Inr [OF Inr] assms have False
    by auto
  then show ?thesis ..
qed

text \<open>
  C3, as the code has it. Take a frame of more than two characters that begins with \<open>42\<close>
  and in which \<open>hasData\<close> finds a text \<open>s\<close>. The JSON library's exception leaves the
  handler, the run does not return, and its only event is the call of the parser, so no
  reply is sent, in each of these cases: the parser rejects \<open>s\<close>; the parsed value is not an
  array that begins with a string; it is the array of the name \<open>telemetry\<close> alone; it
  names \<open>telemetry\<close> and its payload is not an object, or lacks a number under one of
  \<open>x\<close>, \<open>y\<close>, \<open>psi\<close>, \<open>speed\<close>, \<open>steering_angle\<close>, \<open>throttle\<close>, or lacks an array of
  numbers under \<open>ptsx\<close> or \<open>ptsy\<close>. Nothing in the handler recovers the failure.
\<close>

theorem malformed_envelope_escapes:
  assumes "2 < length (sdata_of data)" and "prefix ''42'' (sdata_of data)"
    and "hasData (sdata_of data) = s" and "s \<noteq> ''''"
  shows "(json_parse E s = None \<longrightarrow>
            onMessage E data = (Failed Json_parse_error, [Parse s]))
       \<and> (\<forall>j. json_parse E s = Some j \<and> (\<forall>name rest. j \<noteq> JArr (JStr name # rest)) \<longrightarrow>
            onMessage E data = (Failed Json_type_error, [Parse s]))
       \<and> (json_parse E s = Some (JArr [JStr ''telemetry'']) \<longrightarrow>
            onMessage E data = (Failed Json_type_error, [Parse s]))
       \<and> (\<forall>j1 rest. json_parse E s = Some (JArr (JStr ''telemetry'' # j1 # rest))
              \<and> ((\<forall>kvs. j1 \<noteq> JObj kvs)
                 \<or> (\<exists>kvs k. j1 = JObj kvs
                      \<and> k \<in> set [''x'', ''y'', ''psi'', ''speed'', ''steering_angle'', ''throttle'']
                      \<and> (\<forall>r. map_of kvs k \<noteq> Some (JNum r)))
                 \<or> (\<exists>kvs k. j1 = JObj kvs \<and> k \<in> set [''ptsx'', ''ptsy'']
                      \<and> (\<forall>rs. map_of kvs k \<noteq> Some (JArr (map JNum rs))))) \<longrightarrow>
            onMessage E data = (Failed Json_type_error, [Parse s]))"
proof (intro conjI allI impI)
  assume "json_parse E s = None"
  then show "onMessage E data = (Failed Json_parse_error, [Parse s])"
    by (simp add: onMessage_data [OF assms])
next
  fix j
  assume a: "json_parse E s = Some j \<and> (\<forall>name rest. j \<noteq> JArr (JStr name # rest))"
  have "json_at j 0 = Inl Json_type_error
      \<or> (\<exists>j0. json_at j 0 = Inr j0 \<and> get_string j0 = Inl Json_type_error)"
  proof (cases j)
    case (JArr xs)
    show ?thesis
    proof (cases xs)
      case Nil
      with JArr show ?thesis
        by (simp add: json_at_def)
    next
      case (Cons j0 rest)
      with JArr a have "\<forall>name. j0 \<noteq> JStr name"
        by auto
      then have "get_string j0 = Inl Json_type_error"
        by (cases j0) (simp_all add: get_string_def)
      with JArr Cons show ?thesis
        by (simp add: json_at_def)
    qed
  qed (simp_all add: json_at_def)
  with a show "onMessage E data = (Failed Json_type_error, [Parse s])"
    by (auto simp: onMessage_data [OF assms])
next
  assume a: "json_parse E s = Some (JArr [JStr ''telemetry''])"
  have "on_telemetry E (JArr [JStr ''telemetry'']) = (Failed Json_type_error, [])"
    by (simp add: on_telemetry_def json_at_def)
  with a show "onMessage E data = (Failed Json_type_error, [Parse s])"
    by (simp add: onMessage_data [OF assms] json_at_def get_string_def)
next
  fix j1 rest
  assume a: "json_parse E s = Some (JArr (JStr ''telemetry'' # j1 # rest))
    \<and> ((\<forall>kvs. j1 \<noteq> JObj kvs)
       \<or> (\<exists>kvs k. j1 = JObj kvs
            \<and> k \<in> set [''x'', ''y'', ''psi'', ''speed'', ''steering_angle'', ''throttle'']
            \<and> (\<forall>r. map_of kvs k \<noteq> Some (JNum r)))
       \<or> (\<exists>kvs k. j1 = JObj kvs \<and> k \<in> set [''ptsx'', ''ptsy'']
            \<and> (\<forall>rs. map_of kvs k \<noteq> Some (JArr (map JNum rs)))))"
  then have "read_telemetry j1 = Inl Json_type_error"
    by (intro read_telemetry_malformed) blast
  then have "on_telemetry E (JArr (JStr ''telemetry'' # j1 # rest)) = (Failed Json_type_error, [])"
    by (simp add: on_telemetry_def json_at_def)
  with a show "onMessage E data = (Failed Json_type_error, [Parse s])"
    by (simp add: onMessage_data [OF assms] json_at_def get_string_def)
qed

theorem malformed_envelope_escapes_witness:
  "onMessage cubic_ext ''42[}]'' = (Failed Json_parse_error, [Parse ''[}]''])
     \<and> onMessage cubic_ext (frame_of text_no_y) = (Failed Json_type_error, [Parse text_no_y])
     \<and> onMessage cubic_ext (frame_of text_bad_ptsy) =
         (Failed Json_type_error, [Parse text_bad_ptsy])"
proof -
  have s: "sdata_of ''42[}]'' = ''42[}]''"
    by (simp add: sdata_of_def)
  have h: "hasData ''42[}]'' = ''[}]''"
    by (simp add: hasData_def substr_def)
  have p: "json_parse cubic_ext ''[}]'' = None"
    by (simp add: cubic_ext_def cubic_parse_def text_cubic_def text_no_y_def text_bad_ptsy_def)
  have 1: "onMessage cubic_ext ''42[}]'' = (Failed Json_parse_error, [Parse ''[}]''])"
    using malformed_envelope_escapes [of "''42[}]''" "''[}]''" cubic_ext] p
    by (simp add: s h)
  define no_y where "no_y =
    [(''ptsx'', JArr (map JNum [0, 1, 2, 3])), (''ptsy'', JArr (map JNum [1, 10, 49, 142])),
     (''x'', JNum 0), (''psi'', JNum 0), (''speed'', JNum 5),
     (''steering_angle'', JNum 0), (''throttle'', JNum 0)]"
  have sy: "sdata_of (frame_of text_no_y) = frame_of text_no_y"
    by (simp add: sdata_of_def text_no_y_def frame_of_def)
  have hy: "hasData (sdata_of (frame_of text_no_y)) = text_no_y"
    unfolding sy by (simp add: hasData_def substr_def text_no_y_def frame_of_def)
  have ny: "text_no_y \<noteq> ''''" "text_no_y \<noteq> text_cubic"
    by (simp_all add: text_no_y_def text_cubic_def)
  have ly: "2 < length (sdata_of (frame_of text_no_y))"
    unfolding sy using ny(1) by (cases text_no_y) simp_all
  have fy: "prefix ''42'' (sdata_of (frame_of text_no_y))"
    unfolding sy by simp
  have py: "json_parse cubic_ext text_no_y = Some (JArr (JStr ''telemetry'' # JObj no_y # []))"
    by (simp add: cubic_ext_def cubic_parse_def ny no_y_def)
  have "\<forall>r. map_of no_y ''y'' \<noteq> Some (JNum r)"
    by (simp add: no_y_def)
  then have miss_y: "\<exists>kvs k. JObj no_y = JObj kvs
      \<and> k \<in> set [''x'', ''y'', ''psi'', ''speed'', ''steering_angle'', ''throttle'']
      \<and> (\<forall>r. map_of kvs k \<noteq> Some (JNum r))"
    by (intro exI [of _ no_y] exI [of _ "''y''"]) simp
  note ty = malformed_envelope_escapes [OF ly fy hy ny(1), of cubic_ext,
      THEN conjunct2, THEN conjunct2, THEN conjunct2, THEN spec, THEN spec, THEN mp]
  have 2: "onMessage cubic_ext (frame_of text_no_y) =
      (Failed Json_type_error, [Parse text_no_y])"
    by (rule ty, rule conjI, rule py, rule disjI2, rule disjI1, rule miss_y)
  define bad where "bad =
    [(''ptsx'', JArr (map JNum [0, 1, 2, 3])), (''ptsy'', JStr ''none''),
     (''x'', JNum 0), (''y'', JNum 0), (''psi'', JNum 0), (''speed'', JNum 5),
     (''steering_angle'', JNum 0), (''throttle'', JNum 0)]"
  have sb: "sdata_of (frame_of text_bad_ptsy) = frame_of text_bad_ptsy"
    by (simp add: sdata_of_def text_bad_ptsy_def frame_of_def)
  have hb: "hasData (sdata_of (frame_of text_bad_ptsy)) = text_bad_ptsy"
    unfolding sb by (simp add: hasData_def substr_def text_bad_ptsy_def frame_of_def)
  have nb: "text_bad_ptsy \<noteq> ''''" "text_bad_ptsy \<noteq> text_cubic" "text_bad_ptsy \<noteq> text_no_y"
    by (simp_all add: text_bad_ptsy_def text_cubic_def text_no_y_def)
  have lb: "2 < length (sdata_of (frame_of text_bad_ptsy))"
    unfolding sb using nb(1) by (cases text_bad_ptsy) simp_all
  have fb: "prefix ''42'' (sdata_of (frame_of text_bad_ptsy))"
    unfolding sb by simp
  have pb: "json_parse cubic_ext text_bad_ptsy =
      Some (JArr (JStr ''telemetry'' # JObj bad # []))"
    by (simp add: cubic_ext_def cubic_parse_def nb bad_def)
  have "\<forall>rs. map_of bad ''ptsy'' \<noteq> Some (JArr (map JNum rs))"
    by (simp add: bad_def)
  then have ill_ptsy: "\<exists>kvs k. JObj bad = JObj kvs \<and> k \<in> set [''ptsx'', ''ptsy'']
      \<and> (\<forall>rs. map_of kvs k \<noteq> Some (JArr (map JNum rs)))"
    by (intro exI [of _ bad] exI [of _ "''ptsy''"]) simp
  note tb = malformed_envelope_escapes [OF lb fb hb nb(1), of cubic_ext,
      THEN conjunct2, THEN conjunct2, THEN conjunct2, THEN spec, THEN spec, THEN mp]
  have 3: "onMessage cubic_ext (frame_of text_bad_ptsy) =
      (Failed Json_type_error, [Parse text_bad_ptsy])"
    by (rule tb, rule conjI, rule pb, rule disjI2, rule disjI2, rule ill_ptsy)
  from 1 2 3 show ?thesis
    by blast
qed

text \<open>
  The claim fails on a frame whose text is not JSON: the run ends in the parser's exception
  instead of returning to the event loop.
\<close>

theorem unparseable_frame_throws:
  "fst (onMessage (sample_ext [0.1, 0.5, 10, 1, 20, 2]) ''42[{]}]'') = Failed Json_parse_error"
proof -
  have "hasData ''42[{]}]'' = ''[{]}]''"
    by (simp add: hasData_def substr_def)
  then show ?thesis
    by (simp add: onMessage_def sdata_of_def sample_ext_def sample_parse_def text_4_points_def
          text_3_points_def text_no_fields_def)
qed

subsection \<open>The run that reaches the optimizer\<close>

lemma invoke_controller_solves:
  assumes "Solve state c \<in> set (snd (invoke_controller E v coeffs))"
  shows "c = coeffs \<and> vehicle_state v coeffs = Inr state"
  using assms by (auto simp: invoke_controller_def Let_def split: sum.splits)

lemma invoke_controller_replies:
  assumes "vehicle_state v coeffs = Inr state"
    and "steer_message (mpc_Solve E state coeffs) coeffs = Inr m"
  shows "invoke_controller E v coeffs =
     (Returned, [Solve state coeffs, Sleep 100,
                 Send (''42[\"steer\",'' @ json_dump E m @ '']'')])"
  using assms by (simp add: invoke_controller_def Let_def steer_frame_def)

lemma on_telemetry_solves:
  assumes "Solve state coeffs \<in> set (snd (on_telemetry E j))"
  shows "\<exists>xs ys v. on_telemetry E j =
           (fst (invoke_controller E v coeffs), Fit xs ys 3 # snd (invoke_controller E v coeffs))
         \<and> polyfit E xs ys 3 = Inr coeffs
         \<and> vehicle_state v coeffs = Inr state"
  using assms
  by (auto simp: on_telemetry_def Let_def split: sum.splits dest!: invoke_controller_solves)

lemma onMessage_solves:
  assumes "Solve state coeffs \<in> set (snd (onMessage E data))"
    and "2 \<le> length (mpc_Solve E state coeffs)"
  shows "\<exists>s xs ys m. onMessage E data =
           (Returned, [Parse s, Fit xs ys 3, Solve state coeffs, Sleep 100,
                       Send (''42[\"steer\",'' @ json_dump E m @ '']'')])
         \<and> polyfit E xs ys 3 = Inr coeffs
         \<and> steer_message (mpc_Solve E state coeffs) coeffs = Inr m"
proof -
  from assms(1) obtain s j where t: "Solve state coeffs \<in> set (snd (on_telemetry E j))"
    and o: "onMessage E data = (fst (on_telemetry E j), Parse s # snd (on_telemetry E j))"
    by (auto simp: onMessage_def Let_def manual_frame_def
          split: if_splits option.splits sum.splits)
  from on_telemetry_solves [OF t] obtain xs ys v where
    j: "on_telemetry E j =
      (fst (invoke_controller E v coeffs), Fit xs ys 3 # snd (invoke_controller E v coeffs))"
    and f: "polyfit E xs ys 3 = Inr coeffs" and v: "vehicle_state v coeffs = Inr state"
    by blast
  from steer_message_closed [OF assms(2), of coeffs] obtain m where
    m: "steer_message (mpc_Solve E state coeffs) coeffs = Inr m"
    by blast
  from o j invoke_controller_replies [OF v m] f m show ?thesis
    by simp
qed

lemma on_telemetry_payload:
  assumes "length xs = length ys"
  shows "on_telemetry E (JArr [JStr ''telemetry'', sample_payload xs ys]) =
     (case polyfit E xs ys 3 of
        Inl e \<Rightarrow> (Failed e, [Fit xs ys 3])
      | Inr coeffs \<Rightarrow>
          (fst (invoke_controller E 5 coeffs), Fit xs ys 3 # snd (invoke_controller E 5 coeffs)))"
proof -
  let ?t = "\<lparr>tm_x = 0, tm_y = 0, tm_psi = 0, tm_speed = 5, tm_steering_angle = 0,
          tm_throttle = 0, tm_ptsx = xs, tm_ptsy = ys\<rparr>"
  have "to_car_frame ?t =
      Inr (map (\<lambda>k. xs ! k) [0..<length xs], map (\<lambda>k. ys ! k) [0..<length xs])"
    using assms by (simp add: to_car_frame_map transformToVehicle_def)
  also have "map (\<lambda>k. ys ! k) [0..<length xs] = ys"
    using assms by (simp add: map_nth)
  finally have "to_car_frame ?t = Inr (xs, ys)"
    by (simp add: map_nth)
  then show ?thesis
    by (simp add: on_telemetry_def json_at_def read_sample_payload Let_def split: sum.splits)
qed

lemma hasData_text_cubic: "hasData (frame_of text_cubic) = text_cubic"
  by (simp add: hasData_def substr_def text_cubic_def frame_of_def)

lemma sdata_of_text_cubic: "sdata_of (frame_of text_cubic) = frame_of text_cubic"
  by (simp add: sdata_of_def text_cubic_def frame_of_def)

lemma onMessage_cubic:
  "onMessage cubic_ext (frame_of text_cubic) =
     (Returned, [Parse text_cubic, Fit [0, 1, 2, 3] [1, 10, 49, 142] 3,
                 Solve [0, 0, 0, 5, 1, - arctan 2] [1, 2, 3, 4], Sleep 100,
                 Send ''42[\"steer\",{}]''])"
proof -
  have p: "json_parse cubic_ext text_cubic =
      Some (JArr [JStr ''telemetry'', sample_payload [0, 1, 2, 3] [1, 10, 49, 142]])"
    by (simp add: cubic_ext_def cubic_parse_def)
  have f: "polyfit cubic_ext [0, 1, 2, 3] [1, 10, 49, 142] 3 = Inr [1, 2, 3, 4]"
    by (simp add: polyfit_def cubic_ext_def)
  have n: "text_cubic \<noteq> ''''"
    by (simp add: text_cubic_def)
  have v: "vehicle_state 5 [1, 2, 3, 4] = Inr [0, 0, 0, 5, 1, - arctan 2]"
    by (simp add: vehicle_state_def eigen_at_def polyeval_at_0)
  have "2 \<le> length (mpc_Solve cubic_ext [0, 0, 0, 5, 1, - arctan 2] [1, 2, 3, 4])"
    by (simp add: cubic_ext_def)
  from steer_message_closed [OF this, of "[1, 2, 3, 4]"] obtain m where
    "steer_message (mpc_Solve cubic_ext [0, 0, 0, 5, 1, - arctan 2] [1, 2, 3, 4]) [1, 2, 3, 4] =
      Inr m"
    by blast
  from invoke_controller_replies [OF v this]
  have i: "invoke_controller cubic_ext 5 [1, 2, 3, 4] =
      (Returned, [Solve [0, 0, 0, 5, 1, - arctan 2] [1, 2, 3, 4], Sleep 100,
                  Send ''42[\"steer\",{}]''])"
    by (simp add: cubic_ext_def)
  show ?thesis
    by (subst onMessage_data [where s = text_cubic])
      (simp_all add: hasData_text_cubic sdata_of_text_cubic n p json_at_def get_string_def
        on_telemetry_payload f i)
qed

subsection \<open>Decoding the optimizer's result\<close>

text \<open>
  C5. Whenever a run of the handler calls the optimizer and the result has at least two
  elements, the run ends by sending \<open>42["steer",\<close> \<open>msgJson.dump()\<close> \<open>]\<close> for a message
  that carries \<open>result[0]\<close> as \<open>steering_angle\<close>, \<open>result[1]\<close> as \<open>throttle\<close>, the elements
  at the even positions from 2 on, in order, as \<open>mpc_x\<close>, and the elements at the odd
  positions from 3 on, in order, as \<open>mpc_y\<close>. The witness is a run in which the optimizer
  returns \<open>[0.1, 0.5, 10, 1, 20, 2]\<close>.
\<close>

theorem emitted_command_decodes_result:
  assumes "Solve state coeffs \<in> set (snd (onMessage E data))"
    and "mpc_Solve E state coeffs = result" and "2 \<le> length result"
  shows "\<exists>s xs ys m. onMessage E data =
           (Returned, [Parse s, Fit xs ys 3, Solve state coeffs, Sleep 100,
                       Send (''42[\"steer\",'' @ json_dump E m @ '']'')])
         \<and> steering_angle m = result ! 0
         \<and> throttle m = result ! 1
         \<and> mpc_x m = map (\<lambda>i. result ! i) (filter even [2..<length result])
         \<and> mpc_y m = map (\<lambda>i. result ! i) (filter odd [3..<length result])"
proof -
  from assms(2,3) have l: "2 \<le> length (mpc_Solve E state coeffs)"
    by simp
  from onMessage_solves [OF assms(1) l] obtain s xs ys m where
    o: "onMessage E data =
      (Returned, [Parse s, Fit xs ys 3, Solve state coeffs, Sleep 100,
                  Send (''42[\"steer\",'' @ json_dump E m @ '']'')])"
    and m: "steer_message result coeffs = Inr m"
    using assms(2) by auto
  from m steer_message_closed [OF assms(3), of coeffs]
  have "steering_angle m = result ! 0 \<and> throttle m = result ! 1
      \<and> mpc_x m = map (\<lambda>i. result ! i) (filter even [2..<length result])
      \<and> mpc_y m = map (\<lambda>i. result ! i) (filter odd [3..<length result])"
    by (auto simp: filter_odd_from_2)
  with o show ?thesis
    by blast
qed

theorem emitted_command_decodes_result_witness:
  "\<exists>s xs ys m. onMessage cubic_ext (frame_of text_cubic) =
       (Returned, [Parse s, Fit xs ys 3, Solve [0, 0, 0, 5, 1, - arctan 2] [1, 2, 3, 4],
                   Sleep 100, Send (''42[\"steer\",'' @ json_dump cubic_ext m @ '']'')])
     \<and> steering_angle m = 0.1 \<and> throttle m = 0.5
     \<and> mpc_x m = [10, 20] \<and> mpc_y m = [1, 2]"
proof -
  have a: "Solve [0, 0, 0, 5, 1, - arctan 2] [1, 2, 3, 4]
      \<in> set (snd (onMessage cubic_ext (frame_of text_cubic)))"
    by (simp add: onMessage_cubic)
  have b: "mpc_Solve cubic_ext [0, 0, 0, 5, 1, - arctan 2] [1, 2, 3, 4] =
      [0.1, 0.5, 10, 1, 20, 2]"
    by (simp add: cubic_ext_def)
  have c: "2 \<le> length [0.1, 0.5, 10, 1, 20, 2 :: real]"
    by simp
  from emitted_command_decodes_result [OF a b c] show ?thesis
    by (simp add: upt_rec [of 2] upt_rec [of 3] upt_rec [of 4] upt_rec [of 5] upt_rec [of 6])
qed

subsection \<open>The reference line\<close>

text \<open>
  C7. Whenever a run of the handler calls the optimizer with the fitted coefficients and
  the result has the two elements the handler reads first, the message it sends carries
  exactly 25 reference points: \<open>next_x[i] = 2.5 * i\<close> for \<open>i < 25\<close>, from 0 up to 60, and
  \<open>next_y[i]\<close> is the fitted polynomial, the sum of \<open>coeffs[k] * x\<^sup>k\<close>, at \<open>x = 2.5 * i\<close>.
  Neither depends on what the optimizer returned.
\<close>

theorem reference_line_in_reply:
  assumes "Solve state coeffs \<in> set (snd (onMessage E data))"
    and "2 \<le> length (mpc_Solve E state coeffs)"
  shows "\<exists>s xs ys m. onMessage E data =
           (Returned, [Parse s, Fit xs ys 3, Solve state coeffs, Sleep 100,
                       Send (''42[\"steer\",'' @ json_dump E m @ '']'')])
         \<and> polyfit E xs ys 3 = Inr coeffs
         \<and> length (next_x m) = 25 \<and> length (next_y m) = 25
         \<and> next_x m = map (\<lambda>i. 2.5 * real i) [0..<25]
         \<and> next_y m =
             map (\<lambda>i. \<Sum>k = 0..<length coeffs. coeffs ! k * (2.5 * real i) ^ k) [0..<25]
         \<and> last (next_x m) = 60"
proof -
  from onMessage_solves [OF assms] obtain s xs ys m where
    o: "onMessage E data =
      (Returned, [Parse s, Fit xs ys 3, Solve state coeffs, Sleep 100,
                  Send (''42[\"steer\",'' @ json_dump E m @ '']'')])"
    and f: "polyfit E xs ys 3 = Inr coeffs"
    and m: "steer_message (mpc_Solve E state coeffs) coeffs = Inr m"
    by blast
  have "last (map (\<lambda>i. 2.5 * real i) [0..<25]) = 60"
    by (simp add: last_map last_upt)
  with m steer_message_closed [OF assms(2), of coeffs]
  have "length (next_x m) = 25 \<and> length (next_y m) = 25
      \<and> next_x m = map (\<lambda>i. 2.5 * real i) [0..<25]
      \<and> next_y m =
          map (\<lambda>i. \<Sum>k = 0..<length coeffs. coeffs ! k * (2.5 * real i) ^ k) [0..<25]
      \<and> last (next_x m) = 60"
    by (auto simp: polyeval_sum)
  with o f show ?thesis
    by blast
qed

theorem reference_line_in_reply_witness:
  "\<exists>s xs ys m. onMessage cubic_ext (frame_of text_cubic) =
       (Returned, [Parse s, Fit xs ys 3, Solve [0, 0, 0, 5, 1, - arctan 2] [1, 2, 3, 4],
                   Sleep 100, Send (''42[\"steer\",'' @ json_dump cubic_ext m @ '']'')])
     \<and> polyfit cubic_ext xs ys 3 = Inr [1, 2, 3, 4]
     \<and> length (next_x m) = 25 \<and> length (next_y m) = 25
     \<and> next_x m ! 1 = 2.5 \<and> next_y m ! 1 = 87.25
     \<and> next_x m ! 2 = 5 \<and> next_y m ! 2 = 586
     \<and> last (next_x m) = 60"
proof -
  have a: "Solve [0, 0, 0, 5, 1, - arctan 2] [1, 2, 3, 4]
      \<in> set (snd (onMessage cubic_ext (frame_of text_cubic)))"
    by (simp add: onMessage_cubic)
  have b: "2 \<le> length (mpc_Solve cubic_ext [0, 0, 0, 5, 1, - arctan 2] [1, 2, 3, 4])"
    by (simp add: cubic_ext_def)
  from reference_line_in_reply [OF a b] obtain s xs ys m where
    o: "onMessage cubic_ext (frame_of text_cubic) =
      (Returned, [Parse s, Fit xs ys 3, Solve [0, 0, 0, 5, 1, - arctan 2] [1, 2, 3, 4],
                  Sleep 100, Send (''42[\"steer\",'' @ json_dump cubic_ext m @ '']'')])"
    and f: "polyfit cubic_ext xs ys 3 = Inr [1, 2, 3, 4]"
    and l: "length (next_x m) = 25" "length (next_y m) = 25" "last (next_x m) = 60"
    and x: "next_x m = map (\<lambda>i. 2.5 * real i) [0..<25]"
    and y: "next_y m =
      map (\<lambda>i. \<Sum>k = 0..<length [1, 2, 3, 4 :: real].
                  [1, 2, 3, 4] ! k * (2.5 * real i) ^ k) [0..<25]"
    by blast
  have s4: "(\<Sum>k = 0..<4. g k) = g 0 + g 1 + g 2 + g 3" for g :: "nat \<Rightarrow> real"
    by (simp add: numeral_eq_Suc)
  have "next_x m ! 1 = 2.5" "next_x m ! 2 = 5"
    by (simp_all add: x)
  moreover have "next_y m ! 1 = 87.25" "next_y m ! 2 = 586"
    by (simp_all add: y s4 power2_eq_square power3_eq_cube)
  ultimately show ?thesis
    using o f l by blast
qed

subsection \<open>The latency\<close>

lemma invoke_controller_sends:
  assumes "Send m \<in> set (snd (invoke_controller E v coeffs))"
  shows "\<exists>state. invoke_controller E v coeffs =
           (Returned, [Solve state coeffs, Sleep 100, Send m])"
  using assms by (auto simp: invoke_controller_def Let_def split: sum.splits)

lemma on_telemetry_sends:
  assumes "Send m \<in> set (snd (on_telemetry E j))"
  shows "\<exists>xs ys state coeffs. on_telemetry E j =
           (Returned, [Fit xs ys 3, Solve state coeffs, Sleep 100, Send m])"
  using assms
  by (auto simp: on_telemetry_def Let_def split: sum.splits dest!: invoke_controller_sends)

text \<open>
  C9. Whenever a run of the handler sends a frame other than the manual reply, the run is:
  parse, fit, solve, sleep for 100 ms, send. The sleep comes directly before the send, the
  send is the last step, and nothing is sent before the sleep.
\<close>

theorem sleep_precedes_steer_reply:
  assumes "Send m \<in> set (snd (onMessage E data))" and "m \<noteq> manual_frame"
  shows "\<exists>pre. snd (onMessage E data) = pre @ [Sleep 100, Send m]
           \<and> (\<forall>e \<in> set pre. \<forall>d s. e \<noteq> Send s \<and> e \<noteq> Sleep d)
           \<and> fst (onMessage E data) = Returned"
proof -
  from assms obtain s j where t: "Send m \<in> set (snd (on_telemetry E j))"
    and o: "onMessage E data = (fst (on_telemetry E j), Parse s # snd (on_telemetry E j))"
    by (auto simp: onMessage_def Let_def split: if_splits option.splits sum.splits)
  from on_telemetry_sends [OF t] obtain xs ys state coeffs where
    "on_telemetry E j = (Returned, [Fit xs ys 3, Solve state coeffs, Sleep 100, Send m])"
    by blast
  with o have "onMessage E data =
      (Returned, [Parse s, Fit xs ys 3, Solve state coeffs] @ [Sleep 100, Send m])"
    by simp
  then show ?thesis
    by (intro exI [of _ "[Parse s, Fit xs ys 3, Solve state coeffs]"]) simp
qed

theorem sleep_precedes_steer_reply_witness:
  "\<exists>pre. snd (onMessage (sample_ext [0.1, 0.5, 10, 1, 20, 2]) (frame_of text_4_points)) =
           pre @ [Sleep 100, Send ''42[\"steer\",{}]'']
      \<and> (\<forall>e \<in> set pre. \<forall>d s. e \<noteq> Send s \<and> e \<noteq> Sleep d)
      \<and> fst (onMessage (sample_ext [0.1, 0.5, 10, 1, 20, 2]) (frame_of text_4_points)) = Returned"
proof -
  have "2 \<le> length [0.1, 0.5, 10, 1, 20, 2 :: real]"
    by simp
  from steer_message_closed [OF this, of "[0, 1, 0, 0]"]
  have "Send ''42[\"steer\",{}]'' \<in>
      set (snd (onMessage (sample_ext [0.1, 0.5, 10, 1, 20, 2]) (frame_of text_4_points)))"
    by (simp add: onMessage_sample_4_points)
  moreover have "''42[\"steer\",{}]'' \<noteq> manual_frame"
    by (simp add: manual_frame_def)
  ultimately show ?thesis
    by (rule sleep_precedes_steer_reply)
qed

subsection \<open>The frame transform\<close>


lemma transformToVehicle_at_origin: "transformToVehicle 0 0 0 p = p"
  by (simp add: transformToVehicle_def)


end
